theory Spec2Isabelle
  imports Main
begin

section \<open>Python strings\<close>

text \<open>
  The generator is a Python script. Its \<open>str\<close> values are modelled as \<open>string\<close>
  (lists of 8-bit characters); \<open>lower\<close>, \<open>upper\<close>, \<open>isspace\<close> and the character
  classes of \<open>re\<close> are modelled on their ASCII range, which is the range of the
  identifiers and of the Swift source text the script works on. A character
  outside ASCII is left as it is by \<open>lower\<close> and \<open>upper\<close>.
\<close>

definition lower_char :: "char \<Rightarrow> char" where
  "lower_char c =
     (if 65 \<le> (of_char c :: nat) \<and> (of_char c :: nat) \<le> 90
      then char_of ((of_char c :: nat) + 32) else c)"

definition upper_char :: "char \<Rightarrow> char" where
  "upper_char c =
     (if 97 \<le> (of_char c :: nat) \<and> (of_char c :: nat) \<le> 122
      then char_of ((of_char c :: nat) - 32) else c)"

text \<open>\<open>s.lower()\<close>\<close>

definition lower :: "string \<Rightarrow> string" where
  "lower s = map lower_char s"

text \<open>\<open>s.capitalize()\<close>: the first character in upper case, the others in lower case.\<close>

fun capitalize :: "string \<Rightarrow> string" where
  "capitalize [] = []"
| "capitalize (c # cs) = upper_char c # lower cs"

text \<open>
  \<open>s.split(d)\<close> with a one-character separator: the pieces between the separators,
  empty pieces kept, so that the result of splitting the empty string is \<open>['']\<close>.
\<close>

fun split_on :: "char \<Rightarrow> string \<Rightarrow> string list" where
  "split_on d [] = [[]]"
| "split_on d (c # cs) =
     (let r = split_on d cs in if c = d then [] # r else (c # hd r) # tl r)"

text \<open>\<open>s.startswith(p)\<close> and \<open>p in s\<close> (substring test).\<close>

fun startswith :: "string \<Rightarrow> string \<Rightarrow> bool" where
  "startswith s [] = True"
| "startswith [] (p # ps) = False"
| "startswith (c # cs) (p # ps) = (c = p \<and> startswith cs ps)"

fun contains :: "string \<Rightarrow> string \<Rightarrow> bool" where
  "contains [] p = (p = [])"
| "contains (c # cs) p = (startswith (c # cs) p \<or> contains cs p)"

section \<open>SourceExtractor: name normalization\<close>

text \<open>
  \<^verbatim>\<open>
  def _normalize_name(self, name: str) -> str:
      parts = name.lower().split('_')
      if not parts:
          return name
      return parts[0] + ''.join(p.capitalize() for p in parts[1:])
  \<close>
\<close>

definition normalize_name :: "string \<Rightarrow> string" where
  "normalize_name name =
     (let parts = split_on (CHR ''_'') (lower name) in
      if parts = [] then name
      else hd parts @ concat (map capitalize (tl parts)))"

section \<open>Data model\<close>

text \<open>
  The dataclasses of the script. \<open>EnumCase\<close> and \<open>EnumDefinition\<close> are the source
  side, \<open>SwiftEnumCase\<close> the target side, \<open>ChangeAnalysis\<close> the result of the diff.
  The three keys of the dictionaries of target enums, the strings \<open>'CommandCode'\<close>,
  \<open>'ResponseCode'\<close> and \<open>'PushCode'\<close>, are the constructors of \<open>target_enum\<close>.
\<close>

record EnumCase =
  case_name :: string
  case_value :: int
  case_source_file :: string
  case_line_number :: nat
  original_name :: string

record EnumDefinition =
  def_name :: string
  cases :: "EnumCase list"
  base_type :: string
  def_source_file :: string

record SwiftEnumCase =
  swift_name :: string
  swift_value :: int
  comment :: "string option"
  swift_line_number :: "nat option"

datatype target_enum = CommandCode | ResponseCode | PushCode

record ChangeAnalysis =
  target_enum :: target_enum
  additions :: "EnumCase list"
  updates :: "(EnumCase \<times> SwiftEnumCase) list"
  duplicates :: "EnumCase list"
  swift_extras :: "SwiftEnumCase list"

section \<open>SourceExtractor: the abstract syntax it inspects\<close>

text \<open>
  The part of Python's \<open>ast\<close> that the extractor looks at. A constant node carries
  a Python value; \<open>True\<close> and \<open>False\<close> are values of \<open>bool\<close>, a subclass of \<open>int\<close>.
  An assignment carries its list of targets, its value and its line number.
\<close>

datatype py_constant =
  CInt int | CBool bool | CFloat string | CStr string | CBytes string | CNone | CEllipsis

datatype unaryop = USub | UAdd | UNot | UInvert

datatype expr =
  Constant py_constant
| UnaryOp unaryop expr
| Name string
| Attribute expr string
| Call expr "expr list"
| Tuple "expr list"
| BinOp expr string expr

datatype stmt =
  Assign "expr list" expr nat
| AnnAssign expr expr "expr option"
| OtherStmt

record ClassDef =
  class_name :: string
  bases :: "expr list"
  body :: "stmt list"

text \<open>
  \<^verbatim>\<open>
  def _evaluate_constant(self, node: ast.AST) -> Optional[int]:
      if isinstance(node, ast.Constant):
          return node.value if isinstance(node.value, int) else None
      elif isinstance(node, ast.Num):  # Python < 3.8 compatibility
          return node.n if isinstance(node.n, int) else None
      elif isinstance(node, ast.UnaryOp) and isinstance(node.op, ast.USub):
          inner = self._evaluate_constant(node.operand)
          return -inner if inner is not None else None
      return None
  \<close>
  \<open>isinstance(v, int)\<close> holds of an \<open>int\<close> and of a \<open>bool\<close>; the value of \<open>True\<close> as
  an integer is 1 and that of \<open>False\<close> is 0. Every \<open>ast.Num\<close> node is an
  \<open>ast.Constant\<close> node, so the second branch is never taken.
\<close>

fun evaluate_constant :: "expr \<Rightarrow> int option" where
  "evaluate_constant (Constant (CInt n)) = Some n"
| "evaluate_constant (Constant (CBool b)) = Some (if b then 1 else 0)"
| "evaluate_constant (Constant v) = None"
| "evaluate_constant (UnaryOp USub operand) =
     (case evaluate_constant operand of None \<Rightarrow> None | Some inner \<Rightarrow> Some (- inner))"
| "evaluate_constant node = None"

text \<open>
  \<^verbatim>\<open>
  def _extract_enum_case(self, assign_node: ast.Assign, source_file: Path) -> Optional[EnumCase]:
      if len(assign_node.targets) != 1:
          return None
      target = assign_node.targets[0]
      if not isinstance(target, ast.Name):
          return None
      enum_name = target.id
      value = self._evaluate_constant(assign_node.value)
      if value is None or not isinstance(value, int):
          return None
      return EnumCase(name=self._normalize_name(enum_name), value=int(value),
                      source_file=str(source_file), line_number=assign_node.lineno,
                      original_name=enum_name)
  \<close>
  The arguments are the fields of the assignment node.
\<close>

fun extract_enum_case :: "string \<Rightarrow> expr list \<Rightarrow> expr \<Rightarrow> nat \<Rightarrow> EnumCase option" where
  "extract_enum_case source_file [Name enum_name] v lineno =
     (case evaluate_constant v of
        None \<Rightarrow> None
      | Some i \<Rightarrow> Some \<lparr>case_name = normalize_name enum_name, case_value = i,
                        case_source_file = source_file, case_line_number = lineno,
                        original_name = enum_name\<rparr>)"
| "extract_enum_case source_file targets v lineno = None"

text \<open>
  The loop over the class body in \<open>_extract_int_enum\<close>:
  \<^verbatim>\<open>
  for node in class_node.body:
      if isinstance(node, ast.Assign):
          case = self._extract_enum_case(node, source_file)
          if case:
              cases.append(case)
  \<close>
\<close>

fun extract_cases :: "string \<Rightarrow> stmt list \<Rightarrow> EnumCase list" where
  "extract_cases source_file [] = []"
| "extract_cases source_file (Assign targets v lineno # nodes) =
     (case extract_enum_case source_file targets v lineno of
        None \<Rightarrow> extract_cases source_file nodes
      | Some c \<Rightarrow> c # extract_cases source_file nodes)"
| "extract_cases source_file (node # nodes) = extract_cases source_file nodes"

text \<open>
  \<^verbatim>\<open>
  def _is_int_enum_subclass(self, class_node: ast.ClassDef) -> bool:
      class_name_lower = class_node.name.lower()
      if any(skip_word in class_name_lower for skip_word in ['command', 'handler', 'base']):
          return False
      for base in class_node.bases:
          if isinstance(base, ast.Name):
              if base.id in ['IntEnum', 'Enum']:
                  return True
          elif isinstance(base, ast.Attribute):
              if base.attr in ['IntEnum', 'Enum']:
                  return True
      return False
  \<close>
\<close>

fun is_enum_base :: "expr \<Rightarrow> bool" where
  "is_enum_base (Name ident) = (ident \<in> set [''IntEnum'', ''Enum''])"
| "is_enum_base (Attribute e attr) = (attr \<in> set [''IntEnum'', ''Enum''])"
| "is_enum_base e = False"

definition is_int_enum_subclass :: "ClassDef \<Rightarrow> bool" where
  "is_int_enum_subclass class_node =
     (let class_name_lower = lower (class_name class_node) in
      if list_ex (contains class_name_lower) [''command'', ''handler'', ''base''] then False
      else list_ex is_enum_base (bases class_node))"

text \<open>
  The last loop of \<open>_extract_int_enum\<close>: the first base that is the plain name
  \<open>IntEnum\<close> or \<open>Enum\<close> decides; the default is \<open>'Enum'\<close>.
\<close>

fun determine_base_type :: "expr list \<Rightarrow> string" where
  "determine_base_type [] = ''Enum''"
| "determine_base_type (Name ident # bs) =
     (if ident = ''IntEnum'' then ''IntEnum''
      else if ident = ''Enum'' then ''Enum''
      else determine_base_type bs)"
| "determine_base_type (b # bs) = determine_base_type bs"

text \<open>
  \<open>_extract_int_enum(class_node, source_file)\<close>; \<open>rel_path\<close> is
  \<open>str(source_file.relative_to(self.source_dir))\<close>. The result \<open>None\<close> of the source
  is \<open>None\<close> here.
  \<^verbatim>\<open>
  if not self._is_int_enum_subclass(class_node):
      return None
  cases = [] ... (the loop above)
  if len(cases) < 2:
      return None
  skip_enum_names = {'BinaryReqType', 'ControlType'}
  if (class_node.name in skip_enum_names or
      'commands' in str(source_file.relative_to(self.source_dir)).lower()):
      return None
  if class_node.name != 'PacketType':
      return None
  ... (the base type)
  return EnumDefinition(name=class_node.name, cases=cases, base_type=base_type,
                        source_file=str(source_file.relative_to(self.source_dir)))
  \<close>
\<close>

definition extract_int_enum :: "string \<Rightarrow> string \<Rightarrow> ClassDef \<Rightarrow> EnumDefinition option" where
  "extract_int_enum source_file rel_path class_node =
     (if \<not> is_int_enum_subclass class_node then None
      else let cs = extract_cases source_file (body class_node) in
        if length cs < 2 then None
        else if class_name class_node \<in> {''BinaryReqType'', ''ControlType''}
                \<or> contains (lower rel_path) ''commands'' then None
        else if class_name class_node \<noteq> ''PacketType'' then None
        else Some \<lparr>def_name = class_name class_node, cases = cs,
                   base_type = determine_base_type (bases class_node),
                   def_source_file = rel_path\<rparr>)"

section \<open>Classifier\<close>

text \<open>
  \<^verbatim>\<open>
  def _detect_target_enums_dynamic(self, enum_def: EnumDefinition) -> List[str]:
      enum_name = enum_def.name.lower()
      values = [case.value for case in enum_def.cases]
      if any(keyword in enum_name for keyword in ['req', 'cmd', 'command', 'binary']):
          return ['CommandCode']
      if any(keyword in enum_name for keyword in ['resp', 'response', 'event']):
          if any(v >= 0x80 for v in values):
              return ['PushCode']
          else:
              return ['ResponseCode']
      if 'packet' in enum_name:
          return ['ResponseCode', 'PushCode']
      if any(keyword in enum_name for keyword in ['event', 'type']) and not values:
          return []
      if not values:
          return []
      if all(v < 0x80 for v in values):
          return ['ResponseCode']
      elif all(v >= 0x80 for v in values):
          return ['PushCode']
      else:
          return ['ResponseCode', 'PushCode']
  \<close>
\<close>

definition detect_target_enums_dynamic :: "EnumDefinition \<Rightarrow> target_enum list" where
  "detect_target_enums_dynamic enum_def =
     (let enum_name = lower (def_name enum_def);
          values = map case_value (cases enum_def) in
      if list_ex (contains enum_name) [''req'', ''cmd'', ''command'', ''binary'']
        then [CommandCode]
      else if list_ex (contains enum_name) [''resp'', ''response'', ''event'']
        then (if list_ex (\<lambda>v. v \<ge> 128) values then [PushCode] else [ResponseCode])
      else if contains enum_name ''packet'' then [ResponseCode, PushCode]
      else if list_ex (contains enum_name) [''event'', ''type''] \<and> values = [] then []
      else if values = [] then []
      else if list_all (\<lambda>v. v < 128) values then [ResponseCode]
      else if list_all (\<lambda>v. v \<ge> 128) values then [PushCode]
      else [ResponseCode, PushCode])"

text \<open>
  \<^verbatim>\<open>
  def map_to_swift_enums(self) -> Dict[str, List[EnumCase]]:
      swift_enums = {'CommandCode': [], 'ResponseCode': [], 'PushCode': []}
      seen_cases: Set[Tuple[str, int]] = set()  # (normalized_name, value)
      for enum_def in self.enums.values():
          target_enums = self._detect_target_enums_dynamic(enum_def)
          for case in enum_def.cases:
              case_key = (case.name, case.value)
              if case_key in seen_cases:
                  continue  # Skip duplicates
              seen_cases.add(case_key)
              for target in target_enums:
                  swift_enums[target].append(case)
      return swift_enums
  \<close>
  The state of the loops is the dictionary \<open>swift_enums\<close> and the set \<open>seen_cases\<close>.
  The argument of \<open>map_to_swift_enums\<close> is \<open>self.enums.values()\<close>, the definitions in
  the order of the dictionary.
\<close>

definition case_key :: "EnumCase \<Rightarrow> string \<times> int" where
  "case_key c = (case_name c, case_value c)"

type_synonym map_state = "(target_enum \<Rightarrow> EnumCase list) \<times> (string \<times> int) set"

definition append_to_targets ::
  "EnumCase \<Rightarrow> target_enum list \<Rightarrow> (target_enum \<Rightarrow> EnumCase list) \<Rightarrow> (target_enum \<Rightarrow> EnumCase list)" where
  "append_to_targets c target_enums swift_enums =
     fold (\<lambda>target m. m(target := m target @ [c])) target_enums swift_enums"

fun map_cases :: "target_enum list \<Rightarrow> EnumCase list \<Rightarrow> map_state \<Rightarrow> map_state" where
  "map_cases target_enums [] st = st"
| "map_cases target_enums (c # cs) (swift_enums, seen_cases) =
     (if case_key c \<in> seen_cases then map_cases target_enums cs (swift_enums, seen_cases)
      else map_cases target_enums cs
             (append_to_targets c target_enums swift_enums, insert (case_key c) seen_cases))"

fun map_definitions :: "EnumDefinition list \<Rightarrow> map_state \<Rightarrow> map_state" where
  "map_definitions [] st = st"
| "map_definitions (enum_def # enum_defs) st =
     map_definitions enum_defs
       (map_cases (detect_target_enums_dynamic enum_def) (cases enum_def) st)"

definition map_to_swift_enums :: "EnumDefinition list \<Rightarrow> target_enum \<Rightarrow> EnumCase list" where
  "map_to_swift_enums enums = fst (map_definitions enums (\<lambda>target. [], {}))"

section \<open>DiffEngine\<close>

text \<open>The character classes \<open>[A-Z]\<close> and \<open>[a-z]\<close> of \<open>re\<close>.\<close>

definition is_ascii_upper :: "char \<Rightarrow> bool" where
  "is_ascii_upper c \<longleftrightarrow> 65 \<le> (of_char c :: nat) \<and> (of_char c :: nat) \<le> 90"

definition is_ascii_lower :: "char \<Rightarrow> bool" where
  "is_ascii_lower c \<longleftrightarrow> 97 \<le> (of_char c :: nat) \<and> (of_char c :: nat) \<le> 122"

text \<open>
  \<open>re.split(r'([A-Z][a-z]*)', name)\<close>: the text is cut at every capital letter
  followed by its run of small letters; the result alternates the text between two
  matches (here \<open>piece\<close>, possibly empty) and the match itself, and ends with the text
  after the last match.
\<close>

function re_split_caps :: "string \<Rightarrow> string \<Rightarrow> string list" where
  "re_split_caps piece [] = [piece]"
| "re_split_caps piece (c # cs) =
     (if is_ascii_upper c
      then piece # (c # takeWhile is_ascii_lower cs) # re_split_caps [] (dropWhile is_ascii_lower cs)
      else re_split_caps (piece @ [c]) cs)"
  by pat_completeness auto

termination
  by (relation "measure (\<lambda>(piece, s). length s)")
     (auto simp: length_dropWhile_le less_Suc_eq_le)

text \<open>
  \<^verbatim>\<open>
  def normalize_swift_name(name: str) -> str:
      parts = re.split(r'([A-Z][a-z]*)', name)
      return ''.join(p.lower() for p in parts if p).replace('_', '')
  \<close>
\<close>

definition normalize_swift_name :: "string \<Rightarrow> string" where
  "normalize_swift_name name =
     (let parts = re_split_caps [] name in
      filter (\<lambda>c. c \<noteq> CHR ''_'') (concat (map lower (filter (\<lambda>p. p \<noteq> []) parts))))"

text \<open>
  The two dictionaries of \<open>_analyze_enum_changes\<close> that its loop consults:
  \<^verbatim>\<open>
  swift_normalized_map = {(normalize_swift_name(case.name), case.value): case for case in swift_cases}
  swift_value_map = {case.value: case for case in swift_cases}
  \<close>
\<close>

definition swift_normalized_map :: "SwiftEnumCase list \<Rightarrow> (string \<times> int \<rightharpoonup> SwiftEnumCase)" where
  "swift_normalized_map swift_cases =
     fold (\<lambda>c m. m((normalize_swift_name (swift_name c), swift_value c) \<mapsto> c)) swift_cases Map.empty"

definition swift_value_map :: "SwiftEnumCase list \<Rightarrow> (int \<rightharpoonup> SwiftEnumCase)" where
  "swift_value_map swift_cases = fold (\<lambda>c m. m(swift_value c \<mapsto> c)) swift_cases Map.empty"

text \<open>
  The loop of \<open>_analyze_enum_changes\<close>, with the lists \<open>additions\<close> and \<open>duplicates\<close> as
  its state:
  \<^verbatim>\<open>
  for py_case in python_cases:
      py_key = (py_case.name.lower(), py_case.value)
      if py_key in swift_normalized_map:
          continue  # Exact match, fully covered
      elif py_case.value in swift_value_map:
          duplicates.append(py_case)
      else:
          additions.append(py_case)
  \<close>
\<close>

fun classify_cases ::
  "(string \<times> int \<rightharpoonup> SwiftEnumCase) \<Rightarrow> (int \<rightharpoonup> SwiftEnumCase) \<Rightarrow> EnumCase list
   \<Rightarrow> EnumCase list \<times> EnumCase list \<Rightarrow> EnumCase list \<times> EnumCase list" where
  "classify_cases nmap vmap [] acc = acc"
| "classify_cases nmap vmap (py_case # rest) (adds, dups) =
     (let py_key = (lower (case_name py_case), case_value py_case) in
      if nmap py_key \<noteq> None then classify_cases nmap vmap rest (adds, dups)
      else if vmap (case_value py_case) \<noteq> None
        then classify_cases nmap vmap rest (adds, dups @ [py_case])
      else classify_cases nmap vmap rest (adds @ [py_case], dups))"

text \<open>
  \<open>_analyze_enum_changes(enum_name, python_cases, swift_cases)\<close>. After the loop:
  \<^verbatim>\<open>
  py_case_names = {case.name for case in python_cases}
  py_case_values = {case.value for case in python_cases}
  for swift_case in swift_cases:
      if swift_case.name not in py_case_names and swift_case.value not in py_case_values:
          swift_extras.append(swift_case)
  return ChangeAnalysis(target_enum=enum_name, additions=additions, updates=updates,
                        duplicates=duplicates, swift_extras=swift_extras)
  \<close>
  \<open>updates\<close> is never appended to.
\<close>

definition analyze_enum_changes ::
  "target_enum \<Rightarrow> EnumCase list \<Rightarrow> SwiftEnumCase list \<Rightarrow> ChangeAnalysis" where
  "analyze_enum_changes enum_name python_cases swift_cases =
     (let (adds, dups) =
            classify_cases (swift_normalized_map swift_cases) (swift_value_map swift_cases)
              python_cases ([], []);
          py_case_names = set (map case_name python_cases);
          py_case_values = set (map case_value python_cases)
      in \<lparr>target_enum = enum_name, additions = adds, updates = [], duplicates = dups,
          swift_extras = filter (\<lambda>s. swift_name s \<notin> py_case_names
                                        \<and> swift_value s \<notin> py_case_values) swift_cases\<rparr>)"

text \<open>
  \<^verbatim>\<open>
  def analyze_changes(self, python_enums):
      analyses = []
      for enum_name in ['CommandCode', 'ResponseCode', 'PushCode']:
          python_cases = python_enums.get(enum_name, [])
          swift_cases = self.swift_enums.get(enum_name, [])
          if enum_name == 'ResponseCode':
              python_cases = [c for c in python_cases if c.value < 0x80]
          elif enum_name == 'PushCode':
              python_cases = [c for c in python_cases if c.value >= 0x80]
          analysis = self._analyze_enum_changes(enum_name, python_cases, swift_cases)
          analyses.append(analysis)
      return analyses
  \<close>
\<close>

definition analyze_changes ::
  "(target_enum \<Rightarrow> SwiftEnumCase list) \<Rightarrow> (target_enum \<Rightarrow> EnumCase list) \<Rightarrow> ChangeAnalysis list" where
  "analyze_changes swift_enums python_enums =
     map (\<lambda>enum_name.
            let python_cases = python_enums enum_name;
                swift_cases = swift_enums enum_name;
                python_cases =
                  (if enum_name = ResponseCode then filter (\<lambda>c. case_value c < 128) python_cases
                   else if enum_name = PushCode then filter (\<lambda>c. case_value c \<ge> 128) python_cases
                   else python_cases)
            in analyze_enum_changes enum_name python_cases swift_cases)
         [CommandCode, ResponseCode, PushCode]"

section \<open>TargetParser\<close>

text \<open>The exceptions of the modelled code.\<close>

datatype py_error = ValueError | RuntimeError | IndexError | EOFError

text \<open>
  \<open>str.isspace\<close> and the class \<open>\s\<close> on ASCII: the characters 9 to 13 and 28 to 32.
  The class \<open>\w\<close> on ASCII: letters, digits and the underscore.
\<close>

definition is_space :: "char \<Rightarrow> bool" where
  "is_space c \<longleftrightarrow>
     (9 \<le> (of_char c :: nat) \<and> (of_char c :: nat) \<le> 13)
     \<or> (28 \<le> (of_char c :: nat) \<and> (of_char c :: nat) \<le> 32)"

definition is_digit :: "char \<Rightarrow> bool" where
  "is_digit c \<longleftrightarrow> 48 \<le> (of_char c :: nat) \<and> (of_char c :: nat) \<le> 57"

definition is_word :: "char \<Rightarrow> bool" where
  "is_word c \<longleftrightarrow> is_ascii_upper c \<or> is_ascii_lower c \<or> is_digit c \<or> c = CHR ''_''"

text \<open>\<open>s.strip()\<close> and \<open>s.rstrip(ch)\<close> for a one-character argument.\<close>

definition strip :: "string \<Rightarrow> string" where
  "strip s = rev (dropWhile is_space (rev (dropWhile is_space s)))"

definition rstrip_char :: "char \<Rightarrow> string \<Rightarrow> string" where
  "rstrip_char ch s = rev (dropWhile (\<lambda>c. c = ch) (rev s))"

text \<open>
  \<open>int(s, base)\<close> for base 10 and 16 on ASCII text: surrounding white space, one
  optional sign, for base 16 an optional prefix \<open>0x\<close> or \<open>0X\<close> (after which one
  underscore may stand), then digits of the base, single underscores allowed between
  two digits. Anything else raises \<open>ValueError\<close>. The white space of \<open>int\<close> is
  narrower than that of \<open>str.strip\<close>: the characters 9 to 13 and 32 only, so that
  \<open>int('5\x1f')\<close> raises. In base 10 a text of more than 4300 digits raises
  \<open>ValueError\<close> as well (the default of \<open>sys.set_int_max_str_digits\<close>, which the
  script does not change); the digits are counted without the underscores.
\<close>

definition is_int_space :: "char \<Rightarrow> bool" where
  "is_int_space c \<longleftrightarrow>
     (9 \<le> (of_char c :: nat) \<and> (of_char c :: nat) \<le> 13) \<or> (of_char c :: nat) = 32"

definition int_strip :: "string \<Rightarrow> string" where
  "int_strip s = rev (dropWhile is_int_space (rev (dropWhile is_int_space s)))"

definition int_max_str_digits :: nat where
  "int_max_str_digits = 4300"

definition digit_value :: "nat \<Rightarrow> char \<Rightarrow> nat option" where
  "digit_value base c =
     (let n = (of_char c :: nat);
          d = (if is_digit c then Some (n - 48)
               else if is_ascii_lower c then Some (n - 87)
               else if is_ascii_upper c then Some (n - 55)
               else None)
      in case d of None \<Rightarrow> None | Some v \<Rightarrow> if v < base then Some v else None)"

fun parse_digits :: "nat \<Rightarrow> nat \<Rightarrow> bool \<Rightarrow> string \<Rightarrow> nat option" where
  "parse_digits base acc prev_digit [] = (if prev_digit then Some acc else None)"
| "parse_digits base acc prev_digit (c # cs) =
     (if c = CHR ''_'' then (if prev_digit then parse_digits base acc False cs else None)
      else case digit_value base c of
             None \<Rightarrow> None
           | Some d \<Rightarrow> parse_digits base (acc * base + d) True cs)"

definition py_int :: "nat \<Rightarrow> string \<Rightarrow> py_error + int" where
  "py_int base s =
     (let t = int_strip s;
          negative = startswith t ''-'';
          t = (if startswith t ''-'' \<or> startswith t ''+'' then tl t else t);
          t = (if base = 16 \<and> (startswith t ''0x'' \<or> startswith t ''0X'')
               then (let u = drop 2 t in if startswith u ''_'' then tl u else u)
               else t)
      in if base = 10 \<and> length (filter (\<lambda>c. c \<noteq> CHR ''_'') t) > int_max_str_digits
         then Inl ValueError
         else case parse_digits base 0 False t of
                None \<Rightarrow> Inl ValueError
              | Some n \<Rightarrow> Inr (if negative then - int n else int n))"

text \<open>
  \<^verbatim>\<open>
  def _parse_swift_value(self, value_str: str) -> Optional[int]:
      value_str = value_str.strip().rstrip(',')  # Remove trailing comma
      if value_str.startswith('0x') or value_str.startswith('0X'):
          return int(value_str, 16)
      else:
          return int(value_str)
  \<close>
\<close>

definition parse_swift_value :: "string \<Rightarrow> py_error + int" where
  "parse_swift_value value_str =
     (let value_str = rstrip_char (CHR '','') (strip value_str) in
      if startswith value_str ''0x'' \<or> startswith value_str ''0X''
      then py_int 16 value_str
      else py_int 10 value_str)"

text \<open>
  The search for an enum block,
  \<^verbatim>\<open>
  enum_pattern = fr'public enum {enum_name}: UInt8, Sendable\s*\{{(.*?)\s*\}}'
  enum_match = re.search(enum_pattern, content, re.MULTILINE | re.DOTALL)
  \<close>
  The pattern is the header, white space, an opening brace, the shortest text (the
  one group of the pattern) after which white space and a closing brace follow.
  \<open>search_enum\<close> tries the positions of the text from left to right, as \<open>re.search\<close>
  does, and returns \<open>enum_match.start()\<close> and \<open>enum_match.group(1)\<close>.
\<close>

fun enum_name_str :: "target_enum \<Rightarrow> string" where
  "enum_name_str CommandCode = ''CommandCode''"
| "enum_name_str ResponseCode = ''ResponseCode''"
| "enum_name_str PushCode = ''PushCode''"

definition enum_header :: "target_enum \<Rightarrow> string" where
  "enum_header enum_name = ''public enum '' @ enum_name_str enum_name @ '': UInt8, Sendable''"

definition closes :: "string \<Rightarrow> bool" where
  "closes s = startswith (dropWhile is_space s) ''}''"

fun lazy_body :: "string \<Rightarrow> string option" where
  "lazy_body [] = None"
| "lazy_body (c # cs) =
     (if closes (c # cs) then Some [] else map_option ((#) c) (lazy_body cs))"

definition match_enum_at :: "string \<Rightarrow> string \<Rightarrow> string option" where
  "match_enum_at header s =
     (if startswith s header
      then (let r = dropWhile is_space (drop (length header) s) in
            if startswith r ''{'' then lazy_body (tl r) else None)
      else None)"

fun search_enum :: "string \<Rightarrow> nat \<Rightarrow> string \<Rightarrow> (nat \<times> string) option" where
  "search_enum header pos [] = map_option (Pair pos) (match_enum_at header [])"
| "search_enum header pos (c # cs) =
     (case match_enum_at header (c # cs) of
        Some b \<Rightarrow> Some (pos, b)
      | None \<Rightarrow> search_enum header (Suc pos) cs)"

text \<open>
  The search for a case declaration in a line,
  \<^verbatim>\<open>
  case_pattern = r'case\s+(\w+)\s*=\s*([^/\n]+)(?:\s*//\s*(.*))?'
  case_match = re.search(case_pattern, line)
  \<close>
  The runs \<open>\s+\<close>, \<open>\w+\<close> and \<open>[^/\n]+\<close> are greedy. When no character of the value
  class follows the white space after \<open>=\<close>, the matcher gives white space back, one
  character at a time, for the value group to start there: \<open>value_start\<close>. The result
  is the three groups; the third is \<open>None\<close> when there is no comment.
\<close>

definition value_char :: "char \<Rightarrow> bool" where
  "value_char c \<longleftrightarrow> c \<noteq> CHR ''/'' \<and> c \<noteq> CHR ''\<newline>''"

fun value_start :: "nat \<Rightarrow> string \<Rightarrow> nat option" where
  "value_start k s =
     (if k < length s \<and> value_char (s ! k) then Some k
      else case k of 0 \<Rightarrow> None | Suc j \<Rightarrow> value_start j s)"

definition match_case_at :: "string \<Rightarrow> (string \<times> string \<times> string option) option" where
  "match_case_at s =
     (if \<not> startswith s ''case'' then None
      else let r1 = drop 4 s in
        if takeWhile is_space r1 = [] then None
        else let r2 = dropWhile is_space r1; name = takeWhile is_word r2 in
          if name = [] then None
          else let r3 = dropWhile is_space (dropWhile is_word r2) in
            if \<not> startswith r3 ''='' then None
            else let r4 = tl r3 in
              case value_start (length (takeWhile is_space r4)) r4 of
                None \<Rightarrow> None
              | Some k \<Rightarrow>
                  let v = takeWhile value_char (drop k r4);
                      r5 = dropWhile is_space (dropWhile value_char (drop k r4))
                  in Some (name, v,
                           if startswith r5 ''//''
                           then Some (takeWhile (\<lambda>c. c \<noteq> CHR ''\<newline>'')
                                        (dropWhile is_space (drop 2 r5)))
                           else None))"

fun search_case :: "string \<Rightarrow> (string \<times> string \<times> string option) option" where
  "search_case [] = match_case_at []"
| "search_case (c # cs) =
     (case match_case_at (c # cs) of Some m \<Rightarrow> Some m | None \<Rightarrow> search_case cs)"

text \<open>
  The loop over the lines of a block body; \<open>line_num\<close> counts from
  \<open>enum_match.start()\<close>. An exception of \<open>_parse_swift_value\<close> ends the loop.
  \<^verbatim>\<open>
  for line_num, line in enumerate(enum_body.split('\n'), start=enum_match.start()):
      case_match = re.search(case_pattern, line)
      if case_match:
          case_name = case_match.group(1)
          value_str = case_match.group(2).strip()
          comment = case_match.group(3)
          value = self._parse_swift_value(value_str)
          if value is not None:
              enums[enum_name].append(SwiftEnumCase(name=case_name, value=value,
                                                    comment=comment, line_number=line_num))
  \<close>
\<close>

fun parse_case_lines :: "nat \<Rightarrow> string list \<Rightarrow> py_error + SwiftEnumCase list" where
  "parse_case_lines line_num [] = Inr []"
| "parse_case_lines line_num (line # lines) =
     (case search_case line of
        None \<Rightarrow> parse_case_lines (Suc line_num) lines
      | Some (name, value_text, cmt) \<Rightarrow>
          (case parse_swift_value (strip value_text) of
             Inl e \<Rightarrow> Inl e
           | Inr v \<Rightarrow>
               (case parse_case_lines (Suc line_num) lines of
                  Inl e \<Rightarrow> Inl e
                | Inr cs \<Rightarrow> Inr (\<lparr>swift_name = name, swift_value = v, comment = cmt,
                                   swift_line_number = Some line_num\<rparr> # cs))))"

text \<open>One round of the loop over the three enum names: \<open>if enum_match: ...\<close>.\<close>

definition parse_enum_block :: "string \<Rightarrow> target_enum \<Rightarrow> py_error + SwiftEnumCase list" where
  "parse_enum_block content enum_name =
     (case search_enum (enum_header enum_name) 0 content of
        None \<Rightarrow> Inr []
      | Some (start, enum_body) \<Rightarrow> parse_case_lines start (split_on (CHR ''\<newline>'') enum_body))"

fun parse_enum_blocks ::
  "string \<Rightarrow> target_enum list \<Rightarrow> (target_enum \<Rightarrow> SwiftEnumCase list)
   \<Rightarrow> py_error + (target_enum \<Rightarrow> SwiftEnumCase list)" where
  "parse_enum_blocks content [] enums = Inr enums"
| "parse_enum_blocks content (enum_name # enum_names) enums =
     (case parse_enum_block content enum_name of
        Inl e \<Rightarrow> Inl e
      | Inr cs \<Rightarrow> parse_enum_blocks content enum_names (enums(enum_name := enums enum_name @ cs)))"

text \<open>
  \<open>_parse_existing_enums\<close>. The argument is the text of the file, \<open>None\<close> when the file
  cannot be read.
  \<^verbatim>\<open>
  enums = {'CommandCode': [], 'ResponseCode': [], 'PushCode': []}
  try:
      with open(self.protocol_frame_path, 'r', encoding='utf-8') as f:
          content = f.read()
      for enum_name in enums.keys():
          ... (the search and the loop above)
  except FileNotFoundError:
      raise RuntimeError(f"ProtocolFrame.swift not found at {self.protocol_frame_path}")
  except Exception as e:
      raise RuntimeError(f"Failed to parse ProtocolFrame.swift: {e}")
  return enums
  \<close>
\<close>

definition parse_existing_enums :: "string option \<Rightarrow> py_error + (target_enum \<Rightarrow> SwiftEnumCase list)" where
  "parse_existing_enums file =
     (case file of
        None \<Rightarrow> Inl RuntimeError
      | Some content \<Rightarrow>
          (case parse_enum_blocks content [CommandCode, ResponseCode, PushCode] (\<lambda>enum_name. []) of
             Inl e \<Rightarrow> Inl RuntimeError
           | Inr enums \<Rightarrow> Inr enums))"

section \<open>Merger\<close>

text \<open>\<open>sep.join(lines)\<close>\<close>

fun join :: "string \<Rightarrow> string list \<Rightarrow> string" where
  "join sep [] = []"
| "join sep [x] = x"
| "join sep (x # xs) = x @ sep @ join sep xs"

text \<open>
  The fallback of the merger:
  \<^verbatim>\<open>
  def _parse_enum_by_lines(self, content: str, enum_name: str, new_cases_code: str) -> str:
      lines = content.split('\n')
      start_line = None
      end_line = None
      brace_count = 0
      for i, line in enumerate(lines):
          if f'public enum {enum_name}: UInt8, Sendable' in line:
              start_line = i
              brace_count = line.count('{') - line.count('}')
          elif start_line is not None:
              brace_count += line.count('{') - line.count('}')
              if brace_count <= 0:
                  end_line = i
                  break
      if start_line is None or end_line is None:
          raise RuntimeError(f"Could not find {enum_name} enum using line-by-line parsing")
      lines.insert(end_line, new_cases_code)
      return '\n'.join(lines)
  \<close>
  \<open>scan_enum_lines\<close> is the loop; its result is \<open>start_line\<close> and \<open>end_line\<close>.
\<close>

definition count_char :: "char \<Rightarrow> string \<Rightarrow> int" where
  "count_char ch s = int (length (filter (\<lambda>c. c = ch) s))"

fun scan_enum_lines ::
  "string \<Rightarrow> nat \<Rightarrow> string list \<Rightarrow> nat option \<Rightarrow> int \<Rightarrow> nat option \<times> nat option" where
  "scan_enum_lines header i [] start_line brace_count = (start_line, None)"
| "scan_enum_lines header i (line # lines) start_line brace_count =
     (if contains line header
      then scan_enum_lines header (Suc i) lines (Some i)
             (count_char (CHR ''{'') line - count_char (CHR ''}'') line)
      else if start_line \<noteq> None
      then (let brace_count = brace_count + (count_char (CHR ''{'') line - count_char (CHR ''}'') line)
            in if brace_count \<le> 0 then (start_line, Some i)
               else scan_enum_lines header (Suc i) lines start_line brace_count)
      else scan_enum_lines header (Suc i) lines start_line brace_count)"

definition parse_enum_by_lines :: "string \<Rightarrow> target_enum \<Rightarrow> string \<Rightarrow> py_error + string" where
  "parse_enum_by_lines content enum_name new_cases_code =
     (let lines = split_on (CHR ''\<newline>'') content in
      case scan_enum_lines (enum_header enum_name) 0 lines None 0 of
        (Some start_line, Some end_line) \<Rightarrow>
          Inr (join ''\<newline>'' (take end_line lines @ [new_cases_code] @ drop end_line lines))
      | other \<Rightarrow> Inl RuntimeError)"

text \<open>
  \<open>insert_cases_into_swift_file(content, target_enum, new_cases_code)\<close>:
  \<^verbatim>\<open>
  enum_pattern = fr'public enum {target_enum}: UInt8, Sendable\s*\{{(.*?)\s*\}}'
  enum_match = re.search(enum_pattern, content, re.MULTILINE | re.DOTALL)
  if not enum_match:
      content = self._parse_enum_by_lines(content, target_enum, new_cases_code)
      return content
  enum_body = enum_match.group(1)
  closing_brace = enum_match.group(2)
  ...
  \<close>
  The pattern has one group, so \<open>enum_match.group(2)\<close> raises \<open>IndexError\<close>
  ("no such group") whenever the block is found. The statements after it, which
  parse the new cases, sort them with the existing ones, render the lines and
  substitute the block, are never reached.
\<close>

definition insert_cases_into_swift_file :: "string \<Rightarrow> target_enum \<Rightarrow> string \<Rightarrow> py_error + string" where
  "insert_cases_into_swift_file content target new_cases_code =
     (case search_enum (enum_header target) 0 content of
        None \<Rightarrow> parse_enum_by_lines content target new_cases_code
      | Some enum_match \<Rightarrow> Inl IndexError)"

section \<open>The run\<close>

text \<open>
  What \<open>run\<close> reads and writes: the text of the target file (\<open>None\<close> when it cannot
  be read) and the lines that the operator will type. \<open>input(prompt)\<close> takes the
  next line and raises \<open>EOFError\<close> when there is none.
\<close>

record io_state =
  target_file :: "string option"
  stdin :: "string list"

definition read_input :: "io_state \<Rightarrow> py_error + (string \<times> io_state)" where
  "read_input st =
     (case stdin st of
        [] \<Rightarrow> Inl EOFError
      | l # ls \<Rightarrow> Inr (l, st\<lparr>stdin := ls\<rparr>))"

text \<open>
  \<open>sum(len(a.additions) for a in analyses)\<close> and
  \<open>sum(len(a.updates) for a in analyses)\<close>.
\<close>

definition total_additions :: "ChangeAnalysis list \<Rightarrow> int" where
  "total_additions analyses = sum_list (map (\<lambda>a. int (length (additions a))) analyses)"

definition total_updates :: "ChangeAnalysis list \<Rightarrow> int" where
  "total_updates analyses = sum_list (map (\<lambda>a. int (length (updates a))) analyses)"

text \<open>
  \<open>_show_change_summary\<close> without what it prints:
  \<^verbatim>\<open>
  if total_additions == 0 and total_updates == 0:
      return False
  ...
  if auto_approve:
      return True
  response = input("\nProceed with these changes? (y/n): ").lower().strip()
  return response in ('y', 'yes')
  \<close>
\<close>

definition show_change_summary ::
  "ChangeAnalysis list \<Rightarrow> bool \<Rightarrow> bool \<Rightarrow> io_state \<Rightarrow> py_error + (bool \<times> io_state)" where
  "show_change_summary analyses dry_run auto_approve st =
     (if total_additions analyses = 0 \<and> total_updates analyses = 0 then Inr (False, st)
      else if auto_approve then Inr (True, st)
      else case read_input st of
             Inl e \<Rightarrow> Inl e
           | Inr (response, st') \<Rightarrow> Inr (strip (lower response) \<in> set [''y'', ''yes''], st'))"

text \<open>
  \<open>run\<close> from step 4 on. Steps 5 and 6, which write the file, are the parameter
  \<open>apply_and_finish\<close>; it returns the exit code.
  \<^verbatim>\<open>
  if not self._show_change_summary(analyses, dry_run, auto_approve):
      return 0
  if dry_run:
      return 0
  if not self._apply_changes(analyses, analyzer, skip_backup):
      return 1
  self._update_version_comment()
  return 0
  \<close>
\<close>

definition run_after_safety_check ::
  "bool \<Rightarrow> bool \<Rightarrow> (ChangeAnalysis list \<Rightarrow> io_state \<Rightarrow> int \<times> io_state)
   \<Rightarrow> ChangeAnalysis list \<Rightarrow> io_state \<Rightarrow> int \<times> io_state" where
  "run_after_safety_check dry_run auto_approve apply_and_finish analyses st =
     (case show_change_summary analyses dry_run auto_approve st of
        Inl e \<Rightarrow> (1, st)
      | Inr (approved, st') \<Rightarrow>
          if \<not> approved then (0, st')
          else if dry_run then (0, st')
          else apply_and_finish analyses st')"

text \<open>
  \<open>run\<close>. \<open>downloaded\<close> is the outcome of steps 1 and 2, the definitions extracted from
  the downloaded release or the exception of the download. Every exception inside
  \<open>run\<close> is caught and gives the exit code 1.
  \<^verbatim>\<open>
  mapped_enums = extractor.map_to_swift_enums()
  analyzer = SwiftAnalyzer(self.protocol_frame_path, self.version_tag)
  analyses = analyzer.analyze_changes(mapped_enums)
  total_additions = sum(len(a.additions) for a in analyses)
  if total_additions > max_additions and not auto_approve:
      response = input("Proceed anyway? (y/n): ").lower().strip()
      if response not in ('y', 'yes'):
          return 0
  \<close>
\<close>

definition run ::
  "bool \<Rightarrow> bool \<Rightarrow> int \<Rightarrow> py_error + EnumDefinition list
   \<Rightarrow> (ChangeAnalysis list \<Rightarrow> io_state \<Rightarrow> int \<times> io_state) \<Rightarrow> io_state \<Rightarrow> int \<times> io_state" where
  "run dry_run auto_approve max_additions downloaded apply_and_finish st =
     (case downloaded of
        Inl e \<Rightarrow> (1, st)
      | Inr enums \<Rightarrow>
          let mapped_enums = map_to_swift_enums enums in
          case parse_existing_enums (target_file st) of
            Inl e \<Rightarrow> (1, st)
          | Inr swift_enums \<Rightarrow>
              let analyses = analyze_changes swift_enums mapped_enums in
              if total_additions analyses > max_additions \<and> \<not> auto_approve
              then (case read_input st of
                      Inl e \<Rightarrow> (1, st)
                    | Inr (response, st') \<Rightarrow>
                        if strip (lower response) \<notin> set [''y'', ''yes''] then (0, st')
                        else run_after_safety_check dry_run auto_approve apply_and_finish analyses st')
              else run_after_safety_check dry_run auto_approve apply_and_finish analyses st)"

text \<open>
  The default of the parameter: \<open>max_additions: int = 50\<close> in \<open>run\<close>, and
  \<open>default=50\<close> for \<open>--max-additions\<close> on the command line.
\<close>

definition default_max_additions :: int where
  "default_max_additions = 50"

section \<open>Notions used to state the properties\<close>

text \<open>
  The cases of a list whose key is not in \<open>seen\<close> and has not occurred earlier in the
  list: what one definition contributes to each of its target groups.
\<close>

fun fresh_cases :: "(string \<times> int) set \<Rightarrow> EnumCase list \<Rightarrow> EnumCase list" where
  "fresh_cases seen [] = []"
| "fresh_cases seen (c # cs) =
     (if case_key c \<in> seen then fresh_cases seen cs
      else c # fresh_cases (insert (case_key c) seen) cs)"

text \<open>
  The invariant of the two loops of \<open>map_to_swift_enums\<close>: no key occurs twice in the
  list of a group, and every key of a list is in \<open>seen_cases\<close>.
\<close>

definition keys_inv :: "map_state \<Rightarrow> bool" where
  "keys_inv st \<longleftrightarrow>
     (\<forall>g. distinct (map case_key (fst st g)) \<and> case_key ` set (fst st g) \<subseteq> snd st)"

text \<open>
  The two ways an extracted case can match an existing one: by normalized name and
  value, and by value alone.
\<close>

definition name_value_match :: "SwiftEnumCase list \<Rightarrow> EnumCase \<Rightarrow> bool" where
  "name_value_match swift_cases c \<longleftrightarrow>
     list_ex (\<lambda>s. normalize_swift_name (swift_name s) = lower (case_name c)
                  \<and> swift_value s = case_value c) swift_cases"

definition value_match :: "SwiftEnumCase list \<Rightarrow> EnumCase \<Rightarrow> bool" where
  "value_match swift_cases c \<longleftrightarrow> list_ex (\<lambda>s. swift_value s = case_value c) swift_cases"

text \<open>
  Integer literals as the specification words them, "a literal integer (positive or
  negated)": an integer constant, or the negation of one.
\<close>

fun claimed_int_literal :: "expr \<Rightarrow> int option" where
  "claimed_int_literal (Constant (CInt n)) = Some n"
| "claimed_int_literal (UnaryOp USub (Constant (CInt n))) = Some (- n)"
| "claimed_int_literal e = None"

text \<open>
  Integer constants as the extractor takes them: a constant whose Python value is an
  instance of \<open>int\<close>, that is an integer or a boolean, under any number of unary minus
  signs.
\<close>

fun int_constant :: "expr \<Rightarrow> int option" where
  "int_constant (Constant (CInt n)) = Some n"
| "int_constant (Constant (CBool b)) = Some (of_bool b)"
| "int_constant (UnaryOp USub e) = map_option uminus (int_constant e)"
| "int_constant e = None"

text \<open>
  A simple assignment of an integer to a plain name: exactly one target, which is a
  name, and a value that \<open>lit\<close> reads as an integer. The result is the name, the
  integer and the line.
\<close>

fun simple_assignment :: "(expr \<Rightarrow> int option) \<Rightarrow> stmt \<Rightarrow> (string \<times> int \<times> nat) option" where
  "simple_assignment lit (Assign [Name x] v lineno) = map_option (\<lambda>i. (x, i, lineno)) (lit v)"
| "simple_assignment lit node = None"

text \<open>The \<open>EnumCase\<close> of such an assignment.\<close>

definition enum_case_of :: "string \<Rightarrow> string \<times> int \<times> nat \<Rightarrow> EnumCase" where
  "enum_case_of source_file a =
     (case a of (x, i, lineno) \<Rightarrow>
        \<lparr>case_name = normalize_name x, case_value = i, case_source_file = source_file,
         case_line_number = lineno, original_name = x\<rparr>)"

text \<open>
  The classes that \<open>_extract_int_enum\<close> accepts, apart from the number of their cases:
  an enumeration by its bases, named \<open>PacketType\<close>, outside the commands directory.
\<close>

definition accepted_class :: "string \<Rightarrow> ClassDef \<Rightarrow> bool" where
  "accepted_class rel_path class_node \<longleftrightarrow>
     is_int_enum_subclass class_node \<and> class_name class_node = ''PacketType''
     \<and> \<not> contains (lower rel_path) ''commands''"

section \<open>Example inputs\<close>

text \<open>
  The inputs at which the theorems below are instantiated: definitions and classes of
  the source side, target files, and cases of both sides.
\<close>

definition event_codes :: EnumDefinition where
  "event_codes =
     \<lparr>def_name = ''EventCodes'',
      cases = [\<lparr>case_name = ''ok'', case_value = 0, case_source_file = ''events.py'',
                 case_line_number = 3, original_name = ''OK''\<rparr>,
               \<lparr>case_name = ''advert'', case_value = 128, case_source_file = ''events.py'',
                 case_line_number = 4, original_name = ''ADVERT''\<rparr>],
      base_type = ''IntEnum'', def_source_file = ''events.py''\<rparr>"

definition two_definitions :: "EnumDefinition list" where
  "two_definitions =
     [\<lparr>def_name = ''PacketType'',
       cases = [\<lparr>case_name = ''ok'', case_value = 0, case_source_file = ''a.py'',
                  case_line_number = 2, original_name = ''OK''\<rparr>,
                \<lparr>case_name = ''advert'', case_value = 128, case_source_file = ''a.py'',
                  case_line_number = 3, original_name = ''ADVERT''\<rparr>],
       base_type = ''IntEnum'', def_source_file = ''a.py''\<rparr>,
      \<lparr>def_name = ''Codes'',
       cases = [\<lparr>case_name = ''ok'', case_value = 0, case_source_file = ''b.py'',
                  case_line_number = 7, original_name = ''OK''\<rparr>,
                \<lparr>case_name = ''error'', case_value = 1, case_source_file = ''b.py'',
                  case_line_number = 8, original_name = ''ERROR''\<rparr>],
       base_type = ''IntEnum'', def_source_file = ''b.py''\<rparr>]"

definition flag_class :: ClassDef where
  "flag_class =
     \<lparr>class_name = ''PacketType'', bases = [Name ''IntEnum''],
      body = [Assign [Name ''FLAG''] (Constant (CBool True)) 2,
              Assign [Name ''OK''] (Constant (CInt 0)) 3]\<rparr>"

definition packet_type_class :: ClassDef where
  "packet_type_class =
     \<lparr>class_name = ''PacketType'', bases = [Name ''Enum''],
      body = [OtherStmt,
              Assign [Name ''OK''] (Constant (CInt 0)) 2,
              Assign [Name ''NAMES''] (Tuple [Constant (CInt 1), Constant (CInt 2)]) 3,
              Assign [Name ''NO_MORE_MSGS''] (Constant (CInt 10)) 4,
              Assign [Name ''LABEL''] (Constant (CStr ''x'')) 5,
              Assign [Name ''AUTO''] (Call (Name ''auto'') []) 6,
              Assign [Name ''A'', Name ''B''] (Constant (CInt 7)) 7,
              Assign [Name ''ERR''] (UnaryOp USub (Constant (CInt 1))) 8]\<rparr>"

definition swift_example :: "SwiftEnumCase list" where
  "swift_example =
     [\<lparr>swift_name = ''selfInfo'', swift_value = 5, comment = None, swift_line_number = Some 40\<rparr>,
      \<lparr>swift_name = ''contactMsgRecv'', swift_value = 7, comment = None, swift_line_number = Some 41\<rparr>]"

definition python_example :: "EnumCase list" where
  "python_example =
     [\<lparr>case_name = ''selfInfo'', case_value = 5, case_source_file = ''p.py'',
       case_line_number = 3, original_name = ''SELF_INFO''\<rparr>,
      \<lparr>case_name = ''msgRecv'', case_value = 7, case_source_file = ''p.py'',
       case_line_number = 4, original_name = ''MSG_RECV''\<rparr>,
      \<lparr>case_name = ''battery'', case_value = 12, case_source_file = ''p.py'',
       case_line_number = 5, original_name = ''BATTERY''\<rparr>]"

definition sample_file :: string where
  "sample_file =
     ''import Foundation\<newline>'' @
     ''public enum CommandCode: UInt8, Sendable {\<newline>'' @
     ''    case appStart = 1,\<newline>'' @
     ''    case sendTxtMsg = 0x02 // text\<newline>'' @
     ''}\<newline>'' @
     ''public enum PushCode: UInt8, Sendable {\<newline>'' @
     ''    case advert = 0x80\<newline>'' @
     ''}\<newline>''"

definition bad_value_file :: string where
  "bad_value_file =
     ''public enum ResponseCode: UInt8, Sendable {\<newline>'' @
     ''    case ok = zero\<newline>'' @
     ''}\<newline>''"

definition other_enum_file :: string where
  "other_enum_file =
     ''enum Mode {\<newline>'' @
     ''    case fast = quick\<newline>'' @
     ''}\<newline>''"

definition sixty_cases :: "EnumDefinition list" where
  "sixty_cases =
     [\<lparr>def_name = ''PacketType'',
       cases = map (\<lambda>i. \<lparr>case_name = ''code'', case_value = int i, case_source_file = ''p.py'',
                          case_line_number = i, original_name = ''CODE''\<rparr>) [0..<60],
       base_type = ''IntEnum'', def_source_file = ''p.py''\<rparr>]"

definition overwrite :: "ChangeAnalysis list \<Rightarrow> io_state \<Rightarrow> int \<times> io_state" where
  "overwrite analyses st = (0, st\<lparr>target_file := Some ''overwritten''\<rparr>)"

section \<open>Properties of the string functions\<close>

lemma split_on_not_Nil: "split_on d s \<noteq> []"
  by (induction s) (auto simp: Let_def)

lemma split_on_no_sep: "d \<notin> set s \<Longrightarrow> split_on d s = [s]"
  by (induction s) (auto simp: Let_def)

lemma split_on_parts_no_sep: "p \<in> set (split_on d s) \<Longrightarrow> d \<notin> set p"
proof (induction s arbitrary: p)
  case Nil
  then show ?case by simp
next
  case (Cons c cs)
  let ?r = "split_on d cs"
  have r: "?r = hd ?r # tl ?r"
    using split_on_not_Nil [of d cs] by simp
  show ?case
  proof (cases "c = d")
    case True
    with Cons show ?thesis by (auto simp: Let_def)
  next
    case False
    with Cons.prems have "p = c # hd ?r \<or> p \<in> set (tl ?r)"
      by (simp add: Let_def)
    then show ?thesis
    proof
      assume p: "p = c # hd ?r"
      have "hd ?r \<in> set ?r" using split_on_not_Nil [of d cs] by simp
      then have "d \<notin> set (hd ?r)" by (rule Cons.IH)
      with p False show ?thesis by auto
    next
      assume "p \<in> set (tl ?r)"
      then have "p \<in> set ?r" by (metis r list.set_intros(2))
      then show ?thesis by (rule Cons.IH)
    qed
  qed
qed

lemma of_char_lower_char:
  "(of_char (lower_char c) :: nat) =
     (if 65 \<le> (of_char c :: nat) \<and> (of_char c :: nat) \<le> 90 then of_char c + 32 else of_char c)"
proof (cases "65 \<le> (of_char c :: nat) \<and> (of_char c :: nat) \<le> 90")
  case True
  then have m: "((of_char c :: nat) + 32) mod 256 = of_char c + 32" by simp
  from True have "lower_char c = char_of ((of_char c :: nat) + 32)"
    unfolding lower_char_def by (rule if_P)
  then have "(of_char (lower_char c) :: nat) = ((of_char c :: nat) + 32) mod 256"
    by (simp only: of_char_of)
  with m True show ?thesis by (simp only: if_True simp_thms)
next
  case False
  then have "lower_char c = c" unfolding lower_char_def by (rule if_not_P)
  with False show ?thesis by (simp only: if_False)
qed

lemma of_char_upper_char:
  "(of_char (upper_char c) :: nat) =
     (if 97 \<le> (of_char c :: nat) \<and> (of_char c :: nat) \<le> 122 then of_char c - 32 else of_char c)"
proof (cases "97 \<le> (of_char c :: nat) \<and> (of_char c :: nat) \<le> 122")
  case True
  then have "(of_char c :: nat) - 32 < 256" by arith
  then have m: "((of_char c :: nat) - 32) mod 256 = of_char c - 32" by (rule mod_less)
  from True have "upper_char c = char_of ((of_char c :: nat) - 32)"
    unfolding upper_char_def by (rule if_P)
  then have "(of_char (upper_char c) :: nat) = ((of_char c :: nat) - 32) mod 256"
    by (simp only: of_char_of)
  with m True show ?thesis by (simp only: if_True simp_thms)
next
  case False
  then have "upper_char c = c" unfolding upper_char_def by (rule if_not_P)
  with False show ?thesis by (simp only: if_False)
qed

lemma of_char_underscore: "(of_char (CHR ''_'') :: nat) = 95"
  by code_simp

lemma char_eq_of_char: "c = d \<longleftrightarrow> (of_char c :: nat) = of_char d"
  by (simp only: of_char_eq_iff)

lemma lower_char_underscore: "lower_char c = CHR ''_'' \<longleftrightarrow> c = CHR ''_''"
proof -
  have "(of_char (lower_char c) :: nat) = 95 \<longleftrightarrow> (of_char c :: nat) = 95"
    unfolding of_char_lower_char by auto
  then show ?thesis
    unfolding char_eq_of_char [of _ "CHR ''_''"] of_char_underscore .
qed

lemma upper_char_underscore: "upper_char c = CHR ''_'' \<longleftrightarrow> c = CHR ''_''"
proof -
  have "(of_char (upper_char c) :: nat) = 95 \<longleftrightarrow> (of_char c :: nat) = 95"
    unfolding of_char_upper_char by auto
  then show ?thesis
    unfolding char_eq_of_char [of _ "CHR ''_''"] of_char_underscore .
qed

lemma lower_char_idem: "lower_char (lower_char c) = lower_char c"
proof -
  have "(of_char (lower_char (lower_char c)) :: nat) = of_char (lower_char c)"
    unfolding of_char_lower_char by auto
  then show ?thesis by (simp only: of_char_eq_iff)
qed

lemma lower_idem: "lower (lower s) = lower s"
  by (simp add: lower_def lower_char_idem)

lemma underscore_lower: "CHR ''_'' \<in> set (lower s) \<longleftrightarrow> CHR ''_'' \<in> set s"
proof -
  have "CHR ''_'' \<in> lower_char ` set s \<longleftrightarrow> (\<exists>c\<in>set s. lower_char c = CHR ''_'')"
    by (metis image_iff)
  also have "\<dots> \<longleftrightarrow> (\<exists>c\<in>set s. c = CHR ''_'')"
    by (simp only: lower_char_underscore)
  also have "\<dots> \<longleftrightarrow> CHR ''_'' \<in> set s"
    by blast
  finally show ?thesis by (simp only: lower_def set_map)
qed

lemma underscore_capitalize: "CHR ''_'' \<notin> set p \<Longrightarrow> CHR ''_'' \<notin> set (capitalize p)"
proof (cases p)
  case Nil
  then show ?thesis by simp
next
  case (Cons c cs)
  assume "CHR ''_'' \<notin> set p"
  with Cons have "c \<noteq> CHR ''_''" and "CHR ''_'' \<notin> set (lower cs)"
    by (auto simp: underscore_lower)
  moreover from \<open>c \<noteq> CHR ''_''\<close> have "upper_char c \<noteq> CHR ''_''"
    by (simp add: upper_char_underscore)
  ultimately show ?thesis using Cons by auto
qed

lemma normalize_name_no_underscore: "CHR ''_'' \<notin> set (normalize_name s)"
proof -
  let ?parts = "split_on (CHR ''_'') (lower s)"
  have ne: "?parts \<noteq> []" by (rule split_on_not_Nil)
  have all: "\<And>p. p \<in> set ?parts \<Longrightarrow> CHR ''_'' \<notin> set p"
    by (rule split_on_parts_no_sep)
  have h: "CHR ''_'' \<notin> set (hd ?parts)"
    using ne all by simp
  have t: "\<And>p. p \<in> set (tl ?parts) \<Longrightarrow> CHR ''_'' \<notin> set (capitalize p)"
    using ne all by (metis underscore_capitalize list.set_sel(2))
  show ?thesis
    using ne h t by (auto simp: normalize_name_def Let_def)
qed

lemma normalize_name_single: "CHR ''_'' \<notin> set s \<Longrightarrow> normalize_name s = lower s"
proof -
  assume "CHR ''_'' \<notin> set s"
  then have "CHR ''_'' \<notin> set (lower s)" by (simp add: underscore_lower)
  then have "split_on (CHR ''_'') (lower s) = [lower s]" by (rule split_on_no_sep)
  then show ?thesis by (simp add: normalize_name_def)
qed

section \<open>Name normalization (C2)\<close>

text \<open>
  C2, as stated: name normalization is idempotent for every input string. It is not:
  \<open>FOO_BAR\<close> is normalized to \<open>fooBar\<close>, and \<open>fooBar\<close>, which has no underscore, is
  lower-cased as a whole to \<open>foobar\<close>.
\<close>

theorem normalize_name_idempotent_counterexample:
  "normalize_name ''FOO_BAR'' = ''fooBar'' \<and>
   normalize_name (normalize_name ''FOO_BAR'') = ''foobar'' \<and>
   normalize_name (normalize_name ''FOO_BAR'') \<noteq> normalize_name ''FOO_BAR''"
  by code_simp

text \<open>
  C2, amended: name normalization is deterministic (equal inputs give equal outputs),
  and re-normalizing an output lower-cases it: the output never contains an underscore,
  so the second application is \<open>lower\<close>. Normalization is therefore idempotent on every
  input without an underscore, and in general stable from the second application on.
\<close>

theorem normalize_name_renormalize:
  "(s = t \<longrightarrow> normalize_name s = normalize_name t) \<and>
   normalize_name (normalize_name s) = lower (normalize_name s) \<and>
   (CHR ''_'' \<notin> set s \<longrightarrow> normalize_name (normalize_name s) = normalize_name s) \<and>
   normalize_name (normalize_name (normalize_name s)) = normalize_name (normalize_name s)"
proof -
  have a: "normalize_name (normalize_name s) = lower (normalize_name s)"
    by (rule normalize_name_single) (rule normalize_name_no_underscore)
  have b: "normalize_name (normalize_name s) = normalize_name s" if "CHR ''_'' \<notin> set s"
    using that a by (simp add: normalize_name_single lower_idem)
  have "CHR ''_'' \<notin> set (lower (normalize_name s))"
    by (simp add: underscore_lower normalize_name_no_underscore)
  then have c: "normalize_name (lower (normalize_name s)) = lower (normalize_name s)"
    by (simp add: normalize_name_single lower_idem)
  from a b c show ?thesis by simp
qed

theorem normalize_name_renormalize_witness:
  "CHR ''_'' \<notin> set ''PACKET'' \<and>
   normalize_name (normalize_name ''PACKET'') = normalize_name ''PACKET'' \<and>
   normalize_name (normalize_name ''NO_MORE_MSGS'') = lower (normalize_name ''NO_MORE_MSGS'')"
proof -
  have h: "CHR ''_'' \<notin> set ''PACKET''" by simp
  from h normalize_name_renormalize [of "''PACKET''" "''PACKET''"]
    normalize_name_renormalize [of "''NO_MORE_MSGS''" "''NO_MORE_MSGS''"]
  show ?thesis by blast
qed

section \<open>Classifier (C3, C4)\<close>

lemma detect_distinct: "distinct (detect_target_enums_dynamic d)"
  by (simp add: detect_target_enums_dynamic_def Let_def)

lemma append_to_targets_apply:
  "distinct ts \<Longrightarrow> append_to_targets c ts m g = (if g \<in> set ts then m g @ [c] else m g)"
  unfolding append_to_targets_def
  by (induction ts arbitrary: m) auto

lemma map_cases_snd: "snd (map_cases ts cs (m, seen)) = seen \<union> case_key ` set cs"
  by (induction cs arbitrary: m seen) auto

lemma map_cases_fst:
  "distinct ts \<Longrightarrow>
   fst (map_cases ts cs (m, seen)) g = (if g \<in> set ts then m g @ fresh_cases seen cs else m g)"
  by (induction cs arbitrary: m seen) (simp_all add: append_to_targets_apply)

lemma fresh_cases_keys:
  "distinct (map case_key (fresh_cases seen cs)) \<and> case_key ` set (fresh_cases seen cs) \<inter> seen = {}
   \<and> set (fresh_cases seen cs) \<subseteq> set cs"
proof (induction cs arbitrary: seen)
  case Nil
  then show ?case by simp
next
  case (Cons c cs)
  from Cons [of seen] Cons [of "insert (case_key c) seen"]
  show ?case by auto
qed

lemma map_cases_inv:
  assumes "distinct ts" "keys_inv st"
  shows "keys_inv (map_cases ts cs st)"
proof -
  obtain m seen where st: "st = (m, seen)" by (cases st)
  from fresh_cases_keys [of seen cs]
  have d: "distinct (map case_key (fresh_cases seen cs))"
    and i: "case_key ` set (fresh_cases seen cs) \<inter> seen = {}"
    and s: "set (fresh_cases seen cs) \<subseteq> set cs" by blast+
  from assms(2) st have m1: "\<And>g. distinct (map case_key (m g))"
    and m2: "\<And>g. case_key ` set (m g) \<subseteq> seen"
    by (simp_all add: keys_inv_def)
  have "distinct (map case_key (fst (map_cases ts cs (m, seen)) g))
        \<and> case_key ` set (fst (map_cases ts cs (m, seen)) g) \<subseteq> snd (map_cases ts cs (m, seen))"
    for g
  proof (cases "g \<in> set ts")
    case True
    have "case_key ` set (m g) \<inter> case_key ` set (fresh_cases seen cs) = {}"
      using i m2 [of g] by blast
    moreover have "case_key ` set (fresh_cases seen cs) \<subseteq> case_key ` set cs"
      using s by blast
    ultimately show ?thesis
      using True d m1 [of g] m2 [of g]
      by (simp add: map_cases_fst [OF assms(1)] map_cases_snd image_Un) blast
  next
    case False
    then show ?thesis
      using m1 [of g] m2 [of g]
      by (simp add: map_cases_fst [OF assms(1)] map_cases_snd) blast
  qed
  then show ?thesis unfolding st keys_inv_def by blast
qed

lemma map_definitions_inv: "keys_inv st \<Longrightarrow> keys_inv (map_definitions ds st)"
  by (induction ds arbitrary: st) (simp_all add: map_cases_inv detect_distinct)

text \<open>
  C3: within one run of \<open>map_to_swift_enums\<close>, whatever the definitions and however
  often a key \<open>(name, value)\<close> occurs in them, the list of every target group holds each
  key at most once; and a case whose key is already in \<open>seen_cases\<close> is passed over
  before any list is touched: the state after it is the state before it.
\<close>

theorem map_to_swift_enums_keys_distinct:
  "distinct (map case_key (map_to_swift_enums enums target))
   \<and> (case_key c \<in> seen_cases \<longrightarrow>
        map_cases target_enums (c # cs) (swift_enums, seen_cases)
          = map_cases target_enums cs (swift_enums, seen_cases))"
proof -
  have "keys_inv (\<lambda>target. [], {})" by (simp add: keys_inv_def)
  then have "keys_inv (map_definitions enums (\<lambda>target. [], {}))"
    by (rule map_definitions_inv)
  then have "distinct (map case_key (map_to_swift_enums enums target))"
    by (simp add: keys_inv_def map_to_swift_enums_def)
  then show ?thesis by simp
qed

text \<open>
  Two definitions that share the key \<open>(ok, 0)\<close>: the second occurrence is dropped.
\<close>

theorem map_to_swift_enums_keys_distinct_witness:
  "map (case_name) (map_to_swift_enums two_definitions ResponseCode) = [''ok'', ''advert'', ''error'']
   \<and> distinct (map case_key (map_to_swift_enums two_definitions ResponseCode))
   \<and> case_key (hd python_example) \<in> {case_key (hd python_example)}
   \<and> map_cases [ResponseCode] [hd python_example] (\<lambda>target. [], {case_key (hd python_example)})
       = (\<lambda>target. [], {case_key (hd python_example)})"
proof -
  have a: "map (case_name) (map_to_swift_enums two_definitions ResponseCode) = [''ok'', ''advert'', ''error'']"
    by code_simp
  have b: "case_key (hd python_example) \<in> {case_key (hd python_example)}" by simp
  from map_to_swift_enums_keys_distinct
         [of two_definitions ResponseCode "hd python_example" "{case_key (hd python_example)}"
             "[ResponseCode]" "[]" "\<lambda>target. []"] a b
  show ?thesis by simp
qed

lemma map_to_swift_enums_single:
  "map_to_swift_enums [d] target =
     (if target \<in> set (detect_target_enums_dynamic d) then fresh_cases {} (cases d) else [])"
  by (simp add: map_to_swift_enums_def map_cases_fst detect_distinct)

text \<open>
  C4: a definition whose lower-cased name contains none of \<open>req\<close>, \<open>cmd\<close>, \<open>command\<close>,
  \<open>binary\<close> and contains one of \<open>resp\<close>, \<open>response\<close>, \<open>event\<close> is routed to the push group
  alone if one of its values is at least 0x80 and to the response group alone
  otherwise; the routing is of the whole definition: all its cases (those that survive
  deduplication) go to that one group, whatever their own values.
\<close>

theorem detect_response_event_per_definition:
  assumes "\<not> list_ex (contains (lower (def_name d))) [''req'', ''cmd'', ''command'', ''binary'']"
    and "list_ex (contains (lower (def_name d))) [''resp'', ''response'', ''event'']"
  shows "detect_target_enums_dynamic d =
           (if \<exists>c\<in>set (cases d). case_value c \<ge> 128 then [PushCode] else [ResponseCode])
         \<and> map_to_swift_enums [d] target =
           (if target = (if \<exists>c\<in>set (cases d). case_value c \<ge> 128 then PushCode else ResponseCode)
            then fresh_cases {} (cases d) else [])"
proof -
  have d: "detect_target_enums_dynamic d =
           (if \<exists>c\<in>set (cases d). case_value c \<ge> 128 then [PushCode] else [ResponseCode])"
    using assms unfolding detect_target_enums_dynamic_def Let_def
    by (simp add: list_ex_iff)
  show ?thesis
    unfolding map_to_swift_enums_single
    by (simp add: d)
qed

theorem detect_response_event_per_definition_witness:
  "\<not> list_ex (contains (lower (def_name event_codes))) [''req'', ''cmd'', ''command'', ''binary'']
   \<and> list_ex (contains (lower (def_name event_codes))) [''resp'', ''response'', ''event'']
   \<and> detect_target_enums_dynamic event_codes = [PushCode]
   \<and> map_to_swift_enums [event_codes] PushCode = cases event_codes
   \<and> map_to_swift_enums [event_codes] ResponseCode = []"
proof -
  have h1: "\<not> list_ex (contains (lower (def_name event_codes))) [''req'', ''cmd'', ''command'', ''binary'']"
    by code_simp
  have h2: "list_ex (contains (lower (def_name event_codes))) [''resp'', ''response'', ''event'']"
    by code_simp
  have v: "\<exists>c\<in>set (cases event_codes). case_value c \<ge> 128"
    by (simp add: event_codes_def)
  have f: "fresh_cases {} (cases event_codes) = cases event_codes"
    by (simp add: event_codes_def case_key_def)
  from detect_response_event_per_definition [OF h1 h2, of PushCode]
    detect_response_event_per_definition [OF h1 h2, of ResponseCode] v f h1 h2
  show ?thesis by simp
qed

section \<open>Extractor (C5, C10)\<close>

lemma evaluate_constant_int_constant: "evaluate_constant e = int_constant e"
  by (induction e rule: int_constant.induct) (simp_all split: option.splits)

lemma extract_enum_case_simple:
  "extract_enum_case source_file targets v lineno =
     map_option (enum_case_of source_file) (simple_assignment int_constant (Assign targets v lineno))"
  by (induction source_file targets v lineno rule: extract_enum_case.induct)
     (simp_all add: evaluate_constant_int_constant enum_case_of_def split: option.splits)

lemma extract_cases_map_filter:
  "extract_cases source_file nodes =
     map (enum_case_of source_file) (List.map_filter (simple_assignment int_constant) nodes)"
proof (induction nodes)
  case Nil
  then show ?case by (simp add: List.map_filter_simps)
next
  case (Cons node nodes)
  show ?case
  proof (cases node)
    case (Assign targets v lineno)
    with Cons show ?thesis
      by (cases "simple_assignment int_constant (Assign targets v lineno)")
         (simp_all add: extract_enum_case_simple List.map_filter_simps)
  next
    case (AnnAssign t a v)
    with Cons show ?thesis by (simp add: List.map_filter_simps)
  next
    case OtherStmt
    with Cons show ?thesis by (simp add: List.map_filter_simps)
  qed
qed

text \<open>
  C5, as stated: one case per assignment of an integer literal, none for a non-integer
  literal, and a class with fewer than two such assignments is discarded. The class
  below assigns the literal \<open>True\<close> and one integer literal: it has one assignment of
  an integer literal, but it is kept, with two cases, the first from \<open>FLAG = True\<close>.
\<close>

theorem extract_int_enum_bool_counterexample:
  "accepted_class ''packets.py'' flag_class
   \<and> List.map_filter (simple_assignment claimed_int_literal) (body flag_class) = [(''OK'', 0, 3)]
   \<and> extract_int_enum ''/src/packets.py'' ''packets.py'' flag_class =
       Some \<lparr>def_name = ''PacketType'',
             cases = [\<lparr>case_name = ''flag'', case_value = 1, case_source_file = ''/src/packets.py'',
                        case_line_number = 2, original_name = ''FLAG''\<rparr>,
                      \<lparr>case_name = ''ok'', case_value = 0, case_source_file = ''/src/packets.py'',
                        case_line_number = 3, original_name = ''OK''\<rparr>],
             base_type = ''IntEnum'', def_source_file = ''packets.py''\<rparr>"
  by code_simp

text \<open>
  C5, amended: for every accepted class, extraction yields exactly one \<open>EnumCase\<close> per
  simple assignment, to a plain name, of a constant that is an instance of \<open>int\<close>
  (an integer literal, or \<open>True\<close> and \<open>False\<close>, which count as 1 and 0) under any number
  of unary minus signs, in source order; the class is discarded if there are fewer than
  two of them; and an assignment of a function call, of a tuple, or of a float,
  string, bytes, \<open>None\<close> or \<open>...\<close> literal yields no case.
\<close>

theorem extract_int_enum_cases:
  assumes "accepted_class rel_path class_node"
  shows "extract_int_enum source_file rel_path class_node =
           (let qs = List.map_filter (simple_assignment int_constant) (body class_node) in
            if length qs < 2 then None
            else Some \<lparr>def_name = ''PacketType'', cases = map (enum_case_of source_file) qs,
                       base_type = determine_base_type (bases class_node),
                       def_source_file = rel_path\<rparr>)
         \<and> extract_enum_case source_file targets (Call f args) lineno = None
         \<and> extract_enum_case source_file targets (Tuple es) lineno = None
         \<and> extract_enum_case source_file targets (Constant (CFloat x)) lineno = None
         \<and> extract_enum_case source_file targets (Constant (CStr s)) lineno = None
         \<and> extract_enum_case source_file targets (Constant (CBytes s)) lineno = None
         \<and> extract_enum_case source_file targets (Constant CNone) lineno = None
         \<and> extract_enum_case source_file targets (Constant CEllipsis) lineno = None"
proof -
  have a: "extract_int_enum source_file rel_path class_node =
           (let qs = List.map_filter (simple_assignment int_constant) (body class_node) in
            if length qs < 2 then None
            else Some \<lparr>def_name = ''PacketType'', cases = map (enum_case_of source_file) qs,
                       base_type = determine_base_type (bases class_node),
                       def_source_file = rel_path\<rparr>)"
    using assms
    by (simp add: accepted_class_def extract_int_enum_def extract_cases_map_filter Let_def)
  have b: "extract_enum_case source_file targets e lineno = None"
    if "int_constant e = None" for e
    using that by (simp add: extract_enum_case_simple)
       (cases "(int_constant, Assign targets e lineno)" rule: simple_assignment.cases, simp_all)
  show ?thesis
    using a by (simp add: b)
qed

theorem extract_int_enum_cases_witness:
  "accepted_class ''packets.py'' packet_type_class
   \<and> extract_int_enum ''/src/packets.py'' ''packets.py'' packet_type_class =
       Some \<lparr>def_name = ''PacketType'',
             cases = map (enum_case_of ''/src/packets.py'')
                       [(''OK'', 0, 2), (''NO_MORE_MSGS'', 10, 4), (''ERR'', - 1, 8)],
             base_type = ''Enum'', def_source_file = ''packets.py''\<rparr>"
proof -
  have h: "accepted_class ''packets.py'' packet_type_class" by code_simp
  have q: "List.map_filter (simple_assignment int_constant) (body packet_type_class) =
             [(''OK'', 0, 2), (''NO_MORE_MSGS'', 10, 4), (''ERR'', - 1, 8)]"
    by (simp add: packet_type_class_def List.map_filter_simps)
  have b: "determine_base_type (bases packet_type_class) = ''Enum''"
    by (simp add: packet_type_class_def)
  from extract_int_enum_cases [OF h, of "''/src/packets.py''"] h
  show ?thesis by (simp add: q b Let_def)
qed

lemma detect_nonempty:
  "cases d \<noteq> [] \<Longrightarrow> detect_target_enums_dynamic d \<noteq> []"
  by (simp add: detect_target_enums_dynamic_def Let_def)

lemma extract_int_enum_Some:
  "extract_int_enum source_file rel_path class_node = Some d \<Longrightarrow>
   2 \<le> length (cases d) \<and> def_name d = ''PacketType''"
  by (auto simp: extract_int_enum_def Let_def split: if_splits)

text \<open>
  C10: a definition produced by the extractor has at least two cases, so the list of
  values that the classifier computes is not empty, the conditions of its two
  empty-values branches are false, and the classifier returns at least one group.
\<close>

theorem extracted_definition_classified:
  assumes "extract_int_enum source_file rel_path class_node = Some d"
  shows "2 \<le> length (cases d)
         \<and> map case_value (cases d) \<noteq> []
         \<and> \<not> (list_ex (contains (lower (def_name d))) [''event'', ''type'']
               \<and> map case_value (cases d) = [])
         \<and> detect_target_enums_dynamic d \<noteq> []"
proof -
  from assms have l: "2 \<le> length (cases d)" by (simp add: extract_int_enum_Some)
  then have n: "cases d \<noteq> []" by auto
  from l n detect_nonempty [OF n] show ?thesis by simp
qed

theorem extracted_definition_classified_witness:
  "(\<exists>d. extract_int_enum ''/src/packets.py'' ''packets.py'' packet_type_class = Some d
        \<and> map case_value (cases d) = [0, 10, - 1]
        \<and> detect_target_enums_dynamic d \<noteq> [])"
proof -
  have e: "extract_int_enum ''/src/packets.py'' ''packets.py'' packet_type_class =
       Some \<lparr>def_name = ''PacketType'',
             cases = map (enum_case_of ''/src/packets.py'')
                       [(''OK'', 0, 2), (''NO_MORE_MSGS'', 10, 4), (''ERR'', - 1, 8)],
             base_type = ''Enum'', def_source_file = ''packets.py''\<rparr>"
    by code_simp
  from extracted_definition_classified [OF e] e
  show ?thesis by (simp add: enum_case_of_def)
qed

section \<open>DiffEngine (C1)\<close>

lemma concat_re_split_caps: "concat (re_split_caps piece s) = piece @ s"
  by (induction piece s rule: re_split_caps.induct) simp_all

lemma normalize_swift_name_eq:
  "normalize_swift_name name = filter (\<lambda>c. c \<noteq> CHR ''_'') (lower name)"
proof -
  have "concat (map lower (filter (\<lambda>p. p \<noteq> []) ps)) = lower (concat ps)" for ps
    by (induction ps) (simp_all add: lower_def)
  then show ?thesis
    by (simp add: normalize_swift_name_def concat_re_split_caps)
qed

lemma dom_fold_upd:
  "dom (fold (\<lambda>c m. m(k c \<mapsto> c)) xs m0) = dom m0 \<union> k ` set xs"
  by (induction xs arbitrary: m0) auto

lemma swift_normalized_map_None:
  "swift_normalized_map swift_cases (lower (case_name c), case_value c) = None
     \<longleftrightarrow> \<not> name_value_match swift_cases c"
proof -
  have "swift_normalized_map swift_cases (lower (case_name c), case_value c) = None
        \<longleftrightarrow> (lower (case_name c), case_value c) \<notin> dom (swift_normalized_map swift_cases)"
    by (simp add: domIff)
  also have "\<dots> \<longleftrightarrow> (lower (case_name c), case_value c)
                 \<notin> (\<lambda>s. (normalize_swift_name (swift_name s), swift_value s)) ` set swift_cases"
    unfolding swift_normalized_map_def dom_fold_upd by simp
  also have "\<dots> \<longleftrightarrow> \<not> name_value_match swift_cases c"
    unfolding name_value_match_def list_ex_iff by force
  finally show ?thesis .
qed

lemma swift_value_map_None:
  "swift_value_map swift_cases (case_value c) = None \<longleftrightarrow> \<not> value_match swift_cases c"
proof -
  have "swift_value_map swift_cases (case_value c) = None
        \<longleftrightarrow> case_value c \<notin> dom (swift_value_map swift_cases)"
    by (simp add: domIff)
  also have "\<dots> \<longleftrightarrow> case_value c \<notin> swift_value ` set swift_cases"
    unfolding swift_value_map_def dom_fold_upd by simp
  also have "\<dots> \<longleftrightarrow> \<not> value_match swift_cases c"
    unfolding value_match_def list_ex_iff by force
  finally show ?thesis .
qed

lemma classify_cases_filter:
  "classify_cases nmap vmap cs (adds, dups) =
     (adds @ filter (\<lambda>c. nmap (lower (case_name c), case_value c) = None
                          \<and> vmap (case_value c) = None) cs,
      dups @ filter (\<lambda>c. nmap (lower (case_name c), case_value c) = None
                          \<and> vmap (case_value c) \<noteq> None) cs)"
  by (induction cs arbitrary: adds dups) (simp_all add: Let_def)

lemma analyze_enum_changes_additions:
  "additions (analyze_enum_changes g python_cases swift_cases) =
     filter (\<lambda>c. \<not> name_value_match swift_cases c \<and> \<not> value_match swift_cases c) python_cases"
  by (simp add: analyze_enum_changes_def classify_cases_filter Let_def
        swift_normalized_map_None swift_value_map_None)

lemma analyze_enum_changes_duplicates:
  "duplicates (analyze_enum_changes g python_cases swift_cases) =
     filter (\<lambda>c. \<not> name_value_match swift_cases c \<and> value_match swift_cases c) python_cases"
  by (simp add: analyze_enum_changes_def classify_cases_filter Let_def
        swift_normalized_map_None swift_value_map_None)

lemma name_value_match_value_match:
  "name_value_match swift_cases c \<Longrightarrow> value_match swift_cases c"
  by (auto simp: name_value_match_def value_match_def list_ex_iff)

lemma length_filter_three:
  "length (filter (\<lambda>c. \<not> P c \<and> \<not> Q c) xs) + length (filter (\<lambda>c. \<not> P c \<and> Q c) xs)
     + length (filter P xs) = length xs"
  by (induction xs) auto

text \<open>
  C1: the diff of a group, \<open>_analyze_enum_changes\<close> on the extracted cases that
  \<open>analyze_changes\<close> hands it, puts every one of these cases into exactly one of three
  outcomes. A case that matches an existing case by normalized name and value is covered: it is
  neither a duplicate nor an addition, although its value matches too, because that
  check comes first. Otherwise it is a duplicate if its value matches an existing
  case, and an addition if not. No case is both, and the three outcomes together count
  every extracted case once.
\<close>

theorem analyze_enum_changes_partition:
  assumes "c \<in> set python_cases"
  shows "(let A = analyze_enum_changes g python_cases swift_cases in
          (name_value_match swift_cases c \<longrightarrow> c \<notin> set (duplicates A) \<and> c \<notin> set (additions A))
          \<and> (c \<in> set (duplicates A) \<longleftrightarrow>
               \<not> name_value_match swift_cases c \<and> value_match swift_cases c)
          \<and> (c \<in> set (additions A) \<longleftrightarrow>
               \<not> name_value_match swift_cases c \<and> \<not> value_match swift_cases c)
          \<and> \<not> (c \<in> set (duplicates A) \<and> c \<in> set (additions A))
          \<and> length (additions A) + length (duplicates A)
              + length (filter (name_value_match swift_cases) python_cases) = length python_cases)"
  using assms
  by (simp add: Let_def analyze_enum_changes_additions analyze_enum_changes_duplicates
        length_filter_three) 

text \<open>A covered case, a duplicate and an addition.\<close>

theorem analyze_enum_changes_partition_witness:
  "python_example ! 0 \<in> set python_example
   \<and> name_value_match swift_example (python_example ! 0)
   \<and> value_match swift_example (python_example ! 0)
   \<and> python_example ! 0 \<notin> set (duplicates (analyze_enum_changes ResponseCode python_example swift_example))
   \<and> python_example ! 0 \<notin> set (additions (analyze_enum_changes ResponseCode python_example swift_example))
   \<and> python_example ! 1 \<in> set (duplicates (analyze_enum_changes ResponseCode python_example swift_example))
   \<and> python_example ! 2 \<in> set (additions (analyze_enum_changes ResponseCode python_example swift_example))"
proof -
  have m0: "python_example ! 0 \<in> set python_example"
    and m1: "python_example ! 1 \<in> set python_example"
    and m2: "python_example ! 2 \<in> set python_example"
    by (simp_all add: python_example_def)
  have n0: "name_value_match swift_example (python_example ! 0)" by code_simp
  have v0: "value_match swift_example (python_example ! 0)" by code_simp
  have n1: "\<not> name_value_match swift_example (python_example ! 1)" by code_simp
  have v1: "value_match swift_example (python_example ! 1)" by code_simp
  have n2: "\<not> name_value_match swift_example (python_example ! 2)" by code_simp
  have v2: "\<not> value_match swift_example (python_example ! 2)" by code_simp
  from analyze_enum_changes_partition [OF m0, of ResponseCode swift_example]
    analyze_enum_changes_partition [OF m1, of ResponseCode swift_example]
    analyze_enum_changes_partition [OF m2, of ResponseCode swift_example]
    m0 n0 v0 n1 v1 n2 v2
  show ?thesis by (simp only: Let_def) blast
qed

section \<open>TargetParser (C8, C9)\<close>

lemma parse_enum_blocks_three:
  "parse_enum_blocks content [CommandCode, ResponseCode, PushCode] (\<lambda>enum_name. []) =
     (case parse_enum_block content CommandCode of Inl e \<Rightarrow> Inl e | Inr c \<Rightarrow>
      case parse_enum_block content ResponseCode of Inl e \<Rightarrow> Inl e | Inr r \<Rightarrow>
      case parse_enum_block content PushCode of Inl e \<Rightarrow> Inl e | Inr p \<Rightarrow>
        Inr (\<lambda>g. case g of CommandCode \<Rightarrow> c | ResponseCode \<Rightarrow> r | PushCode \<Rightarrow> p))"
  by (auto split: sum.splits target_enum.splits simp: fun_eq_iff)

lemma parse_existing_enums_cases:
  "parse_existing_enums (Some content) =
     (if \<exists>g. isl (parse_enum_block content g) then Inl RuntimeError
      else Inr (\<lambda>g. projr (parse_enum_block content g)))"
proof (cases "\<exists>g. isl (parse_enum_block content g)")
  case True
  then obtain g where g: "isl (parse_enum_block content g)" by blast
  then have "isl (parse_enum_blocks content [CommandCode, ResponseCode, PushCode] (\<lambda>enum_name. []))"
    unfolding parse_enum_blocks_three
    by (cases g) (auto split: sum.splits)
  with True show ?thesis
    by (auto simp: parse_existing_enums_def split: sum.splits)
next
  case False
  then have a: "\<And>g. \<not> isl (parse_enum_block content g)" by blast
  have "parse_enum_blocks content [CommandCode, ResponseCode, PushCode] (\<lambda>enum_name. [])
          = Inr (\<lambda>g. projr (parse_enum_block content g))"
    unfolding parse_enum_blocks_three
    using a [of CommandCode] a [of ResponseCode] a [of PushCode]
    by (auto split: sum.splits target_enum.splits simp: fun_eq_iff)
  with False show ?thesis
    by (simp add: parse_existing_enums_def)
qed

lemma run_parse_error:
  "parse_existing_enums (target_file st) = Inl e \<Longrightarrow>
   run dry_run auto_approve max_additions downloaded apply_and_finish st = (1, st)"
  by (cases downloaded) (simp_all add: run_def)



lemma parse_case_lines_bad:
  assumes "line \<in> set lines" "search_case line = Some (name, value_text, cmt)"
    "parse_swift_value (strip value_text) = Inl e"
  shows "isl (parse_case_lines k lines)"
  using assms(1)
proof (induction lines arbitrary: k)
  case Nil
  then show ?case by simp
next
  case (Cons l ls)
  show ?case
  proof (cases "l = line")
    case True
    with assms(2,3) show ?thesis by simp
  next
    case False
    with Cons.prems have "line \<in> set ls" by simp
    then have "isl (parse_case_lines (Suc k) ls)" by (rule Cons.IH)
    then obtain e' where "parse_case_lines (Suc k) ls = Inl e'"
      by (cases "parse_case_lines (Suc k) ls") simp_all
    then show ?thesis
      by (simp split: option.splits sum.splits prod.splits)
  qed
qed

text \<open>
  C9, as stated: any target file that contains a line of the case-declaration shape
  with an unparsable value makes the parser raise. The line below has that shape and
  an unparsable value, but it is in no block of the three groups: the parser returns
  three empty lists.
\<close>

theorem parse_existing_enums_bad_value_counterexample:
  "search_case ''    case fast = quick'' = Some (''fast'', ''quick'', None)
   \<and> parse_swift_value (strip ''quick'') = Inl ValueError
   \<and> parse_existing_enums (Some other_enum_file) = Inr (\<lambda>enum_name. [])"
proof -
  have a: "search_case ''    case fast = quick'' = Some (''fast'', ''quick'', None)" by code_simp
  have b: "parse_swift_value (strip ''quick'') = Inl ValueError" by code_simp
  have c1: "parse_enum_block other_enum_file CommandCode = Inr []" by code_simp
  have c2: "parse_enum_block other_enum_file ResponseCode = Inr []" by code_simp
  have c3: "parse_enum_block other_enum_file PushCode = Inr []" by code_simp
  have "parse_enum_block other_enum_file g = Inr []" for g
    using c1 c2 c3 by (cases g) simp_all
  then have "parse_existing_enums (Some other_enum_file) = Inr (\<lambda>enum_name. [])"
    by (simp add: parse_existing_enums_cases)
  with a b show ?thesis by simp
qed

text \<open>
  C9, amended: when the body of the block of one of the three groups, as the block
  pattern extracts it, has a line that matches the case-declaration pattern and whose
  value text \<open>_parse_swift_value\<close> cannot read as a decimal or \<open>0x\<close>-prefixed
  hexadecimal integer, the parser raises \<open>RuntimeError\<close>: the line is not skipped and
  the list is not left empty. The error aborts the run: \<open>run\<close> returns the exit code 1,
  whatever its other arguments, and leaves the file as it is.
\<close>

theorem parse_existing_enums_bad_value:
  assumes "search_enum (enum_header g) 0 content = Some (start, enum_body)"
    and "line \<in> set (split_on (CHR ''\<newline>'') enum_body)"
    and "search_case line = Some (name, value_text, cmt)"
    and "parse_swift_value (strip value_text) = Inl ValueError"
  shows "parse_existing_enums (Some content) = Inl RuntimeError
         \<and> run dry_run auto_approve max_additions downloaded apply_and_finish
               \<lparr>target_file = Some content, stdin = answers\<rparr>
             = (1, \<lparr>target_file = Some content, stdin = answers\<rparr>)"
proof -
  have "isl (parse_case_lines start (split_on (CHR ''\<newline>'') enum_body))"
    using assms(2-4) by (rule parse_case_lines_bad)
  then have "isl (parse_enum_block content g)"
    using assms(1) by (simp add: parse_enum_block_def)
  then have p: "parse_existing_enums (Some content) = Inl RuntimeError"
    by (auto simp: parse_existing_enums_cases)
  then have "parse_existing_enums (target_file \<lparr>target_file = Some content, stdin = answers\<rparr>)
               = Inl RuntimeError" by simp
  then have "run dry_run auto_approve max_additions downloaded apply_and_finish
               \<lparr>target_file = Some content, stdin = answers\<rparr>
             = (1, \<lparr>target_file = Some content, stdin = answers\<rparr>)"
    by (rule run_parse_error)
  with p show ?thesis by simp
qed

theorem parse_existing_enums_bad_value_witness:
  "search_enum (enum_header ResponseCode) 0 bad_value_file = Some (0, ''\<newline>    case ok = zero'')
   \<and> ''    case ok = zero'' \<in> set (split_on (CHR ''\<newline>'') ''\<newline>    case ok = zero'')
   \<and> search_case ''    case ok = zero'' = Some (''ok'', ''zero'', None)
   \<and> parse_swift_value (strip ''zero'') = Inl ValueError
   \<and> parse_existing_enums (Some bad_value_file) = Inl RuntimeError
   \<and> run False True default_max_additions (Inr two_definitions) overwrite
         \<lparr>target_file = Some bad_value_file, stdin = []\<rparr>
       = (1, \<lparr>target_file = Some bad_value_file, stdin = []\<rparr>)"
proof -
  have h1: "search_enum (enum_header ResponseCode) 0 bad_value_file
              = Some (0, ''\<newline>    case ok = zero'')" by code_simp
  have h2: "''    case ok = zero'' \<in> set (split_on (CHR ''\<newline>'') ''\<newline>    case ok = zero'')"
    by code_simp
  have h3: "search_case ''    case ok = zero'' = Some (''ok'', ''zero'', None)" by code_simp
  have h4: "parse_swift_value (strip ''zero'') = Inl ValueError" by code_simp
  from parse_existing_enums_bad_value
         [OF h1 h2 h3 h4, of False True default_max_additions "Inr two_definitions" overwrite "[]"]
       h1 h2 h3 h4
  show ?thesis by blast
qed

section \<open>Merger (C6)\<close>

lemma insert_cases_into_swift_file_found:
  "search_enum (enum_header target) 0 content = Some enum_match \<Longrightarrow>
   insert_cases_into_swift_file content target new_cases_code = Inl IndexError"
  by (simp add: insert_cases_into_swift_file_def)

text \<open>
  C6: on the primary merge path, the path taken when the block of the target group is
  found in the file, the function is to regenerate the body of the block from the
  existing cases and the additions. It does not: with the \<open>CommandCode\<close> block of the
  example file found and one generated line to insert, it raises \<open>IndexError\<close>, as it
  does for every file in which the block is found.
\<close>

theorem insert_cases_into_swift_file_raises:
  "search_enum (enum_header CommandCode) 0 sample_file
     = Some (18, ''\<newline>    case appStart = 1,\<newline>    case sendTxtMsg = 0x02 // text'')
   \<and> insert_cases_into_swift_file sample_file CommandCode
         ''    case getStatus = 3 // Python: GET_STATUS (packets.py v2.1)''
       = Inl IndexError"
proof -
  have m: "search_enum (enum_header CommandCode) 0 sample_file
     = Some (18, ''\<newline>    case appStart = 1,\<newline>    case sendTxtMsg = 0x02 // text'')"
    by code_simp
  from m insert_cases_into_swift_file_found [OF m] show ?thesis by simp
qed

section \<open>The run (C7)\<close>

text \<open>
  C7: when the analyses have more additions in total than \<open>max_additions\<close> and
  auto-approve is off, the run reads a response of the operator; if the response,
  lower-cased and stripped, is neither \<open>y\<close> nor \<open>yes\<close>, the run ends with the exit code 0,
  without calling the steps that write, and the target file is what it was.
\<close>

theorem run_safety_limit_declined:
  assumes "downloaded = Inr enums"
    and "parse_existing_enums (target_file st) = Inr swift_enums"
    and "total_additions (analyze_changes swift_enums (map_to_swift_enums enums)) > max_additions"
    and "\<not> auto_approve"
    and "stdin st = response # rest"
    and "strip (lower response) \<notin> set [''y'', ''yes'']"
  shows "run dry_run auto_approve max_additions downloaded apply_and_finish st
           = (0, st\<lparr>stdin := rest\<rparr>)
         \<and> target_file (snd (run dry_run auto_approve max_additions downloaded apply_and_finish st))
           = target_file st"
proof -
  from assms(5) have r: "read_input st = Inr (response, st\<lparr>stdin := rest\<rparr>)"
    by (simp add: read_input_def)
  have "run dry_run auto_approve max_additions downloaded apply_and_finish st
          = (0, st\<lparr>stdin := rest\<rparr>)"
    unfolding run_def Let_def
    using assms(1-4,6) r by simp
  then show ?thesis by simp
qed

lemma total_additions_sixty:
  "total_additions (analyze_changes (\<lambda>g. projr (parse_enum_block sample_file g))
                      (map_to_swift_enums sixty_cases)) = 60"
proof -
  let ?d = "hd sixty_cases"
  have s: "sixty_cases = [?d]" by (simp add: sixty_cases_def)
  have f: "fresh_cases {} (cases ?d) = cases ?d" by code_simp
  have t: "detect_target_enums_dynamic ?d = [ResponseCode, PushCode]" by code_simp
  have lo: "length (filter (\<lambda>c. case_value c < 128) (cases ?d)) = 60" by code_simp
  have hi: "filter (\<lambda>c. case_value c \<ge> 128) (cases ?d) = []" by code_simp
  have r: "projr (parse_enum_block sample_file ResponseCode) = []" by code_simp
  have m: "map_to_swift_enums sixty_cases g = (if g = CommandCode then [] else cases ?d)" for g
    by (subst s, cases g) (simp_all add: map_to_swift_enums_single t f)
  have no: "\<not> name_value_match [] c \<and> \<not> value_match [] c" for c
    by (simp add: name_value_match_def value_match_def)
  show ?thesis
    by (simp add: total_additions_def analyze_changes_def analyze_enum_changes_additions
          m r no lo hi)
qed

text \<open>
  Sixty additions, the default limit of fifty, auto-approve off, and an operator who
  answers \<open>n\<close>: the exit code is 0 and the file is untouched, although the steps that
  write would have overwritten it.
\<close>

theorem run_safety_limit_declined_witness:
  "total_additions (analyze_changes (\<lambda>g. projr (parse_enum_block sample_file g))
                      (map_to_swift_enums sixty_cases)) = 60
   \<and> run False False default_max_additions (Inr sixty_cases) overwrite
         \<lparr>target_file = Some sample_file, stdin = [''n'']\<rparr>
       = (0, \<lparr>target_file = Some sample_file, stdin = []\<rparr>)"
proof -
  let ?st = "\<lparr>target_file = Some sample_file, stdin = [''n'']\<rparr>"
  have n1: "\<not> isl (parse_enum_block sample_file CommandCode)" by code_simp
  have n2: "\<not> isl (parse_enum_block sample_file ResponseCode)" by code_simp
  have n3: "\<not> isl (parse_enum_block sample_file PushCode)" by code_simp
  have n: "\<not> isl (parse_enum_block sample_file g)" for g
    using n1 n2 n3 by (cases g) simp_all
  have h2: "parse_existing_enums (target_file ?st) = Inr (\<lambda>g. projr (parse_enum_block sample_file g))"
    using n by (simp add: parse_existing_enums_cases)
  have h3: "total_additions (analyze_changes (\<lambda>g. projr (parse_enum_block sample_file g))
                      (map_to_swift_enums sixty_cases)) > default_max_additions"
    by (simp add: total_additions_sixty default_max_additions_def)
  have h5: "stdin ?st = ''n'' # []" by simp
  have h6: "strip (lower ''n'') \<notin> set [''y'', ''yes'']" by code_simp
  from run_safety_limit_declined [OF refl h2 h3 _ h5 h6, of False False overwrite]
    total_additions_sixty
  show ?thesis by simp
qed

end
